theory Spec2Isabelle
  imports Main "HOL-Library.AList" "HOL-Library.Log_Nat"
begin

section \<open>Python string primitives used by \<open>pt_ana_ts.py\<close>\<close>

text \<open>
  Rules files are taken as ASCII text. \<open>str.strip()\<close> and \<open>str.split()\<close> without
  argument work on Python's white space, which for ASCII is the blank, \<open>\t \n \v \f \r\<close>
  and the four separators \<open>0x1C .. 0x1F\<close>.
\<close>

definition is_space :: "char \<Rightarrow> bool" where
  "is_space c = (c \<in> set [CHR '' '', CHR 0x09, CHR 0x0A, CHR 0x0B, CHR 0x0C, CHR 0x0D,
                           CHR 0x1C, CHR 0x1D, CHR 0x1E, CHR 0x1F])"

text \<open>\<open>s.strip()\<close>\<close>

definition strip :: "string \<Rightarrow> string" where
  "strip s = rev (dropWhile is_space (rev (dropWhile is_space s)))"

text \<open>\<open>s.split(c)\<close> for a one-character separator: one piece more than there are separators.\<close>

fun split_on :: "char \<Rightarrow> string \<Rightarrow> string list" where
  "split_on c [] = [[]]"
| "split_on c (x # xs) =
     (if x = c then [] # split_on c xs
      else (case split_on c xs of [] \<Rightarrow> [[x]] | w # ws \<Rightarrow> (x # w) # ws))"

text \<open>\<open>s.split()\<close>: the maximal runs of characters that are not white space.\<close>

fun split_ws_from :: "string \<Rightarrow> string \<Rightarrow> string list" where
  "split_ws_from w [] = (if w = [] then [] else [w])"
| "split_ws_from w (x # xs) =
     (if is_space x then (if w = [] then split_ws_from [] xs else w # split_ws_from [] xs)
      else split_ws_from (w @ [x]) xs)"

definition split_ws :: "string \<Rightarrow> string list" where
  "split_ws s = split_ws_from [] s"

text \<open>\<open>s.lower()\<close> on ASCII.\<close>

definition lower_char :: "char \<Rightarrow> char" where
  "lower_char c =
     (case map_of (zip ''ABCDEFGHIJKLMNOPQRSTUVWXYZ'' ''abcdefghijklmnopqrstuvwxyz'') c of
        Some l \<Rightarrow> l
      | None \<Rightarrow> c)"

definition lower :: "string \<Rightarrow> string" where
  "lower s = map lower_char s"

text \<open>\<open>str(b)\<close> for a bool.\<close>

definition str_bool :: "bool \<Rightarrow> string" where
  "str_bool b = (if b then ''True'' else ''False'')"


section \<open>Exceptions and messages\<close>

text \<open>
  The exceptions a rules-file line can raise inside the \<open>try\<close> block of
  \<open>load_times_cfg\<close>: a failed tuple unpacking (\<open>ValueError\<close>), \<open>value.split()[0]\<close> on an
  empty list (\<open>IndexError\<close>), \<open>re.compile\<close> rejecting a pattern (\<open>ReError\<close>),
  \<open>Decimal\<close> rejecting a number (\<open>InvalidOperation\<close>) and the two explicit
  \<open>raise SyntaxError\<close> (\<open>RaisedSyntaxError\<close>). \<open>KeyError\<close> is a failed dictionary lookup.
\<close>

datatype exn = ValueError | IndexError | KeyError | ReError | InvalidOperation | RaisedSyntaxError

text \<open>
  What \<open>load_times_cfg\<close> lets escape: \<open>SyntaxError(f"config syntax error (ln:{fno})")\<close>,
  kept as the line number \<open>fno\<close>.
\<close>

datatype error = SyntaxError nat

text \<open>
  The lines the program prints as advice:
  \<^item> \<open>InfoNoDefaultGroup\<close>: "[INFO] Specific group for default path isn't existed, ignore."
  \<^item> \<open>WarnBarsNotFound\<close>: "[WARNING] The -bars option cannot find in the configuration, ignore."
  \<^item> \<open>WarnUnknownDrivingCell cell ln\<close>: "WARNING: Unknown driving cell. (cell, ln:ln)"
\<close>

datatype message = InfoNoDefaultGroup | WarnBarsNotFound | WarnUnknownDrivingCell string nat


section \<open>The configuration: \<open>load_times_cfg\<close>\<close>

text \<open>
  The regular-expression library and \<open>decimal.Decimal\<close> are parameters of the model:
  \<open>re_compile pat\<close> is \<open>None\<close> where \<open>re.compile(pat)\<close> raises, \<open>Decimal v\<close> is \<open>None\<close>
  where \<open>Decimal(v)\<close> raises, and \<open>fullmatch r s\<close> says whether \<open>r.fullmatch(s)\<close> is a
  match.

  A Python \<open>dict\<close> keeps its keys in insertion order, and assigning to a key that is
  present replaces the value where it stands: that is \<open>AList.update\<close> on an association
  list.
\<close>

datatype ('re, 'dec) dc_val = DcRe 're | DcNum 'dec

record ('re, 'dec) cons_cfg =
  flags :: "(string \<times> bool) list"
  bds :: "(string \<times> string list) list"
  ckpc :: "string set"
  ckpi :: "string set"
  ckpr :: "'re list"
  hcd :: "(string \<times> (string \<times> string) list) list"
  ckt :: "(bool \<times> 're) list"
  ckm :: "'re list"
  dpc :: "string option"
  pc :: "(string \<times> 're) list"
  cc :: "(string \<times> 're) list"
  dc :: "(string \<times> ('re, 'dec) dc_val) list"

text \<open>The table \<open>attr\<close>: rules-file key, key of the config, default.\<close>

definition attr :: "(string \<times> string \<times> bool) list" where
  "attr =
    [(''clock_check_enable'', ''ckc_en'', False),
     (''delta_sum_enable'', ''dts_en'', False),
     (''path_segment_enable'', ''seg_en'', False),
     (''ckm_with_non_clock_cell'', ''ckm_nock'', False),
     (''through_pin_on_report'', ''thp_on_rpt'', False),
     (''slack_on_report'', ''slk_on_rpt'', True),
     (''clock_uncertainty_on_report'', ''unce_on_rpt'', False),
     (''library_required_on_report'', ''lib_on_rpt'', False),
     (''datapath_level_on_report'', ''dplv_on_rpt'', False),
     (''clock_skew_on_report'', ''ck_skew_on_rpt'', True),
     (''segment_data_latency_on_report'', ''seg_dlat_on_rpt'', True),
     (''segment_data_delta_on_report'', ''seg_ddt_on_rpt'', True),
     (''segment_launch_clk_latency_on_report'', ''seg_llat_on_rpt'', True),
     (''segment_launch_clk_delta_on_report'', ''seg_ldt_on_rpt'', True),
     (''segment_capture_clk_latency_on_report'', ''seg_clat_on_rpt'', True),
     (''segment_capture_clk_delta_on_report'', ''seg_cdt_on_rpt'', True),
     (''segment_capture_clk_latency_include_crpr'', ''seg_clat_inc_crpr'', True)]"

text \<open>\<open>cons_cfg\<close> before any line is read.\<close>

definition default_cfg :: "('re, 'dec) cons_cfg" where
  "default_cfg =
     \<lparr>flags = map snd attr, bds = [], ckpc = {}, ckpi = {}, ckpr = [], hcd = [],
      ckt = [], ckm = [], dpc = None, pc = [], cc = [], dc = []\<rparr>"

subsection \<open>The handlers, one for each key\<close>

definition handle_toggle ::
  "('re, 'dec) cons_cfg \<Rightarrow> string \<times> bool \<Rightarrow> string \<Rightarrow> exn + ('re, 'dec) cons_cfg" where
  "handle_toggle cons a value =
     (let change_value = lower (str_bool (\<not> snd a)) in
      if lower value = change_value
      then Inr (cons\<lparr>flags := AList.update (fst a) (\<not> snd a) (flags cons)\<rparr>)
      else Inr (cons\<lparr>flags := AList.update (fst a) (snd a) (flags cons)\<rparr>))"

definition handle_bds ::
  "('re, 'dec) cons_cfg \<Rightarrow> string \<Rightarrow> exn + ('re, 'dec) cons_cfg" where
  "handle_bds cons value =
     (case split_ws value of
        [] \<Rightarrow> Inl ValueError
      | tag # pat \<Rightarrow> Inr (cons\<lparr>bds := AList.update tag pat (bds cons)\<rparr>))"

definition handle_ckt ::
  "(string \<Rightarrow> 're option) \<Rightarrow> ('re, 'dec) cons_cfg \<Rightarrow> string \<Rightarrow> exn + ('re, 'dec) cons_cfg" where
  "handle_ckt re_compile cons value =
     (case split_ws value of
        [tag, pat] \<Rightarrow>
          (case re_compile pat of
             None \<Rightarrow> Inl ReError
           | Some pat_re \<Rightarrow>
               if lower tag = ''y'' then Inr (cons\<lparr>ckt := ckt cons @ [(True, pat_re)]\<rparr>)
               else if lower tag = ''n'' then Inr (cons\<lparr>ckt := ckt cons @ [(False, pat_re)]\<rparr>)
               else Inl RaisedSyntaxError)
      | _ \<Rightarrow> Inl ValueError)"

definition handle_ckp ::
  "(string \<Rightarrow> 're option) \<Rightarrow> ('re, 'dec) cons_cfg \<Rightarrow> string \<Rightarrow> exn + ('re, 'dec) cons_cfg" where
  "handle_ckp re_compile cons value =
     (case split_ws value of
        [] \<Rightarrow> Inl ValueError
      | type_ # pat \<Rightarrow>
          if type_ = ''c'' then Inr (cons\<lparr>ckpc := ckpc cons \<union> set pat\<rparr>)
          else if type_ = ''i'' then Inr (cons\<lparr>ckpi := ckpi cons \<union> set pat\<rparr>)
          else if type_ = ''r'' then
            (case those (map re_compile pat) of
               None \<Rightarrow> Inl ReError
             | Some rs \<Rightarrow> Inr (cons\<lparr>ckpr := ckpr cons @ rs\<rparr>))
          else Inl RaisedSyntaxError)"

definition handle_ckm ::
  "(string \<Rightarrow> 're option) \<Rightarrow> ('re, 'dec) cons_cfg \<Rightarrow> string \<Rightarrow> exn + ('re, 'dec) cons_cfg" where
  "handle_ckm re_compile cons value =
     (case split_ws value of
        [] \<Rightarrow> Inl IndexError
      | p # _ \<Rightarrow>
          (case re_compile p of
             None \<Rightarrow> Inl ReError
           | Some pat \<Rightarrow> Inr (cons\<lparr>ckm := ckm cons @ [pat]\<rparr>)))"

definition handle_pc ::
  "(string \<Rightarrow> 're option) \<Rightarrow> ('re, 'dec) cons_cfg \<Rightarrow> string \<Rightarrow> exn + ('re, 'dec) cons_cfg" where
  "handle_pc re_compile cons value =
     (case split_ws value of
        [tag, pat] \<Rightarrow>
          (case re_compile pat of
             None \<Rightarrow> Inl ReError
           | Some r \<Rightarrow> Inr (cons\<lparr>pc := AList.update tag r (pc cons)\<rparr>))
      | _ \<Rightarrow> Inl ValueError)"

definition handle_cc ::
  "(string \<Rightarrow> 're option) \<Rightarrow> ('re, 'dec) cons_cfg \<Rightarrow> string \<Rightarrow> exn + ('re, 'dec) cons_cfg" where
  "handle_cc re_compile cons value =
     (case split_ws value of
        [tag, pat] \<Rightarrow>
          (case re_compile pat of
             None \<Rightarrow> Inl ReError
           | Some r \<Rightarrow> Inr (cons\<lparr>cc := AList.update tag r (cc cons)\<rparr>))
      | _ \<Rightarrow> Inl ValueError)"

definition handle_dc ::
  "(string \<Rightarrow> 're option) \<Rightarrow> (string \<Rightarrow> 'dec option) \<Rightarrow> ('re, 'dec) cons_cfg \<Rightarrow> string \<Rightarrow>
     exn + ('re, 'dec) cons_cfg" where
  "handle_dc re_compile Decimal cons value =
     (case split_ws value of
        v1 # v2 # _ \<Rightarrow>
          if v1 = ''r'' then
            (case re_compile v2 of
               None \<Rightarrow> Inl ReError
             | Some r \<Rightarrow> Inr (cons\<lparr>dc := AList.update ''re'' (DcRe r) (dc cons)\<rparr>))
          else
            (case Decimal v1 of
               None \<Rightarrow> Inl InvalidOperation
             | Some d \<Rightarrow> Inr (cons\<lparr>dc := AList.update v2 (DcNum d) (dc cons)\<rparr>))
      | _ \<Rightarrow> Inl ValueError)"

text \<open>
  \<open>hcd\<close>: the value is cut at the double quotes; with a quote, the tag is the text
  after the first one and three words must stand before it, without one the value is
  four words (\<open>pin\<close>, \<open>pout\<close> are the source's \<open>pi\<close>, \<open>po\<close>). \<open>setdefault\<close> puts an absent cell type at the end of the outer dictionary.
\<close>

definition hcd_fields :: "string \<Rightarrow> exn + (string \<times> string \<times> string \<times> string)" where
  "hcd_fields value =
     (case split_on CHR 0x22 value of
        [] \<Rightarrow> Inl IndexError
      | [t0] \<Rightarrow>
          (case split_ws t0 of
             [type_, pin, pout, tag] \<Rightarrow> Inr (type_, pin, pout, tag)
           | _ \<Rightarrow> Inl ValueError)
      | t0 # t1 # _ \<Rightarrow>
          (case split_ws t0 of
             [type_, pin, pout] \<Rightarrow> Inr (type_, pin, pout, t1)
           | _ \<Rightarrow> Inl ValueError))"

definition handle_hcd ::
  "('re, 'dec) cons_cfg \<Rightarrow> string \<Rightarrow> exn + ('re, 'dec) cons_cfg" where
  "handle_hcd cons value =
     (case hcd_fields value of
        Inl e \<Rightarrow> Inl e
      | Inr (type_, pin, pout, tag) \<Rightarrow>
          (let hcd_dict = (case map_of (hcd cons) type_ of None \<Rightarrow> [] | Some d \<Rightarrow> d) in
           Inr (cons\<lparr>hcd :=
                  AList.update type_ (AList.update (pin @ '':'' @ pout) tag hcd_dict) (hcd cons)\<rparr>)))"

text \<open>
  The \<open>if\<close>/\<open>elif\<close> chain on the key. It has no \<open>else\<close>: a key that no branch names
  leaves \<open>cons_cfg\<close> as it is.
\<close>

definition handle_key ::
  "(string \<Rightarrow> 're option) \<Rightarrow> (string \<Rightarrow> 'dec option) \<Rightarrow> ('re, 'dec) cons_cfg \<Rightarrow> string \<Rightarrow> string \<Rightarrow>
     exn + ('re, 'dec) cons_cfg" where
  "handle_key re_compile Decimal cons key value =
     (case map_of attr key of
        Some a \<Rightarrow> handle_toggle cons a value
      | None \<Rightarrow>
          if key = ''bds'' then handle_bds cons value
          else if key = ''ckt'' then handle_ckt re_compile cons value
          else if key = ''ckp'' then handle_ckp re_compile cons value
          else if key = ''ckm'' then handle_ckm re_compile cons value
          else if key = ''dpc'' then Inr (cons\<lparr>dpc := Some value\<rparr>)
          else if key = ''pc'' then handle_pc re_compile cons value
          else if key = ''cc'' then handle_cc re_compile cons value
          else if key = ''dc'' then handle_dc re_compile Decimal cons value
          else if key = ''hcd'' then handle_hcd cons value
          else Inr cons)"

text \<open>The keys that the chain names: those of \<open>attr\<close> and the nine of the \<open>elif\<close> branches.\<close>

definition handler_keys :: "string list" where
  "handler_keys =
     map fst attr @ [''bds'', ''ckt'', ''ckp'', ''ckm'', ''dpc'', ''pc'', ''cc'', ''dc'', ''hcd'']"

text \<open>
  The body of the \<open>try\<close> block for a line that is not empty (the comment is gone and the
  line is stripped): \<open>key, value = line.split(':')\<close> needs exactly two pieces.
\<close>

definition process_line ::
  "(string \<Rightarrow> 're option) \<Rightarrow> (string \<Rightarrow> 'dec option) \<Rightarrow> ('re, 'dec) cons_cfg \<Rightarrow> string \<Rightarrow>
     exn + ('re, 'dec) cons_cfg" where
  "process_line re_compile Decimal cons line =
     (case split_on CHR '':'' line of
        [key, value] \<Rightarrow> handle_key re_compile Decimal cons (strip key) (strip value)
      | _ \<Rightarrow> Inl ValueError)"

text \<open>\<open>line.split('#')[0].strip()\<close>\<close>

definition content :: "string \<Rightarrow> string" where
  "content l = strip (takeWhile (\<lambda>c. c \<noteq> CHR ''#'') l)"

text \<open>The key of a line: its content before the first colon, stripped.\<close>

definition line_key :: "string \<Rightarrow> string" where
  "line_key l = strip (takeWhile (\<lambda>c. c \<noteq> CHR '':'') (content l))"

text \<open>
  The loop \<open>for fno, line in enumerate(fp, 1)\<close>: \<open>fno\<close> counts every line of the file,
  and any exception of the body is raised again as the syntax error of line \<open>fno\<close>.
\<close>

fun load_lines ::
  "(string \<Rightarrow> 're option) \<Rightarrow> (string \<Rightarrow> 'dec option) \<Rightarrow> nat \<Rightarrow> ('re, 'dec) cons_cfg \<Rightarrow> string list \<Rightarrow>
     error + ('re, 'dec) cons_cfg" where
  "load_lines re_compile Decimal fno cons [] = Inr cons"
| "load_lines re_compile Decimal fno cons (l # ls) =
     (let line = content l in
      if line \<noteq> [] then
        (case process_line re_compile Decimal cons line of
           Inl e \<Rightarrow> Inl (SyntaxError fno)
         | Inr cons' \<Rightarrow> load_lines re_compile Decimal (Suc fno) cons' ls)
      else load_lines re_compile Decimal (Suc fno) cons ls)"

text \<open>
  \<open>load_times_cfg\<close>: the file is the list of its lines, \<open>None\<close> for no file. The result
  is the configuration with what was printed.
\<close>

definition load_times_cfg ::
  "(string \<Rightarrow> 're option) \<Rightarrow> (string \<Rightarrow> 'dec option) \<Rightarrow> string list option \<Rightarrow>
     error + (('re, 'dec) cons_cfg \<times> message list)" where
  "load_times_cfg re_compile Decimal cfg_fp =
     (case cfg_fp of
        None \<Rightarrow> Inr (default_cfg, [])
      | Some fp \<Rightarrow>
          (case load_lines re_compile Decimal 1 default_cfg fp of
             Inl e \<Rightarrow> Inl e
           | Inr cons \<Rightarrow>
               (case dpc cons of
                  None \<Rightarrow> Inr (cons, [])
                | Some t \<Rightarrow>
                    if t \<notin> set (map fst (pc cons))
                    then Inr (cons\<lparr>dpc := None\<rparr>, [InfoNoDefaultGroup])
                    else Inr (cons, []))))"


section \<open>A small pattern library for the worked examples\<close>

text \<open>
  The examples below run the model with this stand-in for \<open>re\<close>: a pattern is plain
  text, optionally ending in \<open>.*\<close>; any other use of a metacharacter is refused.
  Numbers are strings of digits.
\<close>

definition ex_compile :: "string \<Rightarrow> string option" where
  "ex_compile p =
     (let body = (if 2 \<le> length p \<and> drop (length p - 2) p = ''.*'' then take (length p - 2) p else p)
      in if p \<noteq> [] \<and> (\<forall>c \<in> set body. c \<notin> set (CHR 0x5C # ''.*+?()[]{}|^$'')) then Some p else None)"

definition ex_fullmatch :: "string \<Rightarrow> string \<Rightarrow> bool" where
  "ex_fullmatch p s =
     (if 2 \<le> length p \<and> drop (length p - 2) p = ''.*''
      then take (length p - 2) s = take (length p - 2) p
      else s = p)"

definition ex_decimal :: "string \<Rightarrow> nat option" where
  "ex_decimal v =
     (if v \<noteq> [] \<and> (\<forall>c \<in> set v. c \<in> set ''0123456789'')
      then Some (foldl (\<lambda>n c. 10 * n + (of_char c - 48)) 0 v)
      else None)"


section \<open>Pins and paths\<close>

text \<open>
  Modelled from the spec: the classes \<open>Pin\<close> and \<open>TimePath\<close> of \<open>utils/primetime_ts\<close>,
  with the attributes that \<open>pt_ana_ts.py\<close> reads here. \<open>lnum\<close> is the attribute \<open>ln\<close>
  (the line of the report), \<open>drv\<close> the driving-cell value, negative when the cell was not
  classified. The numeric attributes are floating-point values, kept as the rationals
  they denote.
\<close>

record pin =
  name :: string
  cell :: string
  drv :: rat
  lnum :: nat

record time_path =
  lpath :: "pin list"
  cpath :: "pin list"
  spin :: "nat option"
  llat :: rat
  clat :: rat
  crpr :: rat


section \<open>The tag of each cell: \<open>get_time_bar_info\<close>\<close>

text \<open>\<open>cell.__dict__[aid]\<close> for the two values of \<open>aid\<close> that \<open>show_time_bar\<close> passes.\<close>

definition pin_attr :: "string \<Rightarrow> pin \<Rightarrow> string" where
  "pin_attr aid ce = (if aid = ''cell'' then cell ce else name ce)"

text \<open>\<open>init_tag\<close>: the default tag when it is a key of the table, else \<open>None\<close>.\<close>

definition init_tag_of :: "string \<Rightarrow> (string \<times> 're) list \<Rightarrow> string option" where
  "init_tag_of default_tag seg_dict =
     (if seg_dict = [] then None
      else if default_tag \<in> set (map fst seg_dict) then Some default_tag
      else None)"

text \<open>
  The inner loop \<open>for key, ps_re in seg_dict.items()\<close> with its \<open>break\<close>: the key of the
  first entry whose pattern matches the whole text, if there is one.
\<close>

fun first_match :: "('re \<Rightarrow> string \<Rightarrow> bool) \<Rightarrow> (string \<times> 're) list \<Rightarrow> string \<Rightarrow> string option" where
  "first_match fullmatch [] a = None"
| "first_match fullmatch ((key, ps_re) # rest) a =
     (if fullmatch ps_re a then Some key else first_match fullmatch rest a)"

text \<open>
  The tag after one cell (``check path classification tag''). \<open>seg_dict[tag]\<close> raises
  \<open>KeyError\<close> for a tag that is not a key.
\<close>

definition next_tag ::
  "('re \<Rightarrow> string \<Rightarrow> bool) \<Rightarrow> (string \<times> 're) list \<Rightarrow> string option \<Rightarrow> string option \<Rightarrow> string \<Rightarrow>
     exn + string option" where
  "next_tag fullmatch seg_dict init_tag tag a =
     (let new_tag = (case first_match fullmatch seg_dict a of
                       None \<Rightarrow> init_tag
                     | Some key \<Rightarrow> Some key)
      in if seg_dict = [] then Inr tag
         else (case tag of
                 None \<Rightarrow> Inr new_tag
               | Some t \<Rightarrow>
                   (case map_of seg_dict t of
                      None \<Rightarrow> Inl KeyError
                    | Some ps_re \<Rightarrow> if fullmatch ps_re a then Inr tag else Inr new_tag)))"

text \<open>The loop over the cells of one sub-path: the tag that each cell gets.\<close>

fun tag_walk ::
  "('re \<Rightarrow> string \<Rightarrow> bool) \<Rightarrow> (string \<times> 're) list \<Rightarrow> string option \<Rightarrow> string option \<Rightarrow> string list \<Rightarrow>
     exn + string option list" where
  "tag_walk fullmatch seg_dict init_tag tag [] = Inr []"
| "tag_walk fullmatch seg_dict init_tag tag (a # as) =
     (case next_tag fullmatch seg_dict init_tag tag a of
        Inl e \<Rightarrow> Inl e
      | Inr t \<Rightarrow>
          (case tag_walk fullmatch seg_dict init_tag t as of
             Inl e \<Rightarrow> Inl e
           | Inr ts \<Rightarrow> Inr (t # ts)))"

text \<open>A tag that is \<open>None\<close> or a key of the table.\<close>

definition keyed :: "(string \<times> 're) list \<Rightarrow> string option \<Rightarrow> bool" where
  "keyed seg t = (\<forall>k. t = Some k \<longrightarrow> k \<in> fst ` set seg)"

text \<open>
  The tags of a sub-path as \<open>get_time_bar_info aid default_tag seg_dict\<close> walks it: the
  walk starts from \<open>init_tag\<close>, on the values of the attribute \<open>aid\<close>.
\<close>

definition path_tags ::
  "('re \<Rightarrow> string \<Rightarrow> bool) \<Rightarrow> string \<Rightarrow> string \<Rightarrow> (string \<times> 're) list \<Rightarrow> pin list \<Rightarrow>
     exn + string option list" where
  "path_tags fullmatch aid default_tag seg_dict s_path =
     (let init_tag = init_tag_of default_tag seg_dict
      in tag_walk fullmatch seg_dict init_tag init_tag (map (pin_attr aid) s_path))"

text \<open>
  Modelled from the spec: the lookup of a cell's clock-cell type in the ordered \<open>ckt\<close>
  rules, which \<open>clock_path_check\<close> of \<open>utils/primetime_ts\<close> does (``first full-match
  wins; unmatched cell is unknown'').
\<close>

fun ckt_type :: "('re \<Rightarrow> string \<Rightarrow> bool) \<Rightarrow> (bool \<times> 're) list \<Rightarrow> string \<Rightarrow> bool option" where
  "ckt_type fullmatch [] a = None"
| "ckt_type fullmatch ((tag, pat_re) # rest) a =
     (if fullmatch pat_re a then Some tag else ckt_type fullmatch rest a)"


section \<open>Advice that does not stop the run\<close>

text \<open>
  \<open>report_summary\<close>, ``show time bar chart'': the data types of the bar charts from
  \<open>args.bar_set\<close> and \<open>args.bar_dtype\<close>, with what is printed.
\<close>

definition select_bar_dtype ::
  "('re, 'dec) cons_cfg \<Rightarrow> string option \<Rightarrow> string list option \<Rightarrow> string set \<times> message list" where
  "select_bar_dtype cons bar_set bar_dtype_arg =
     (let (s1, out) =
            (case bar_set of
               None \<Rightarrow> ({}, [])
             | Some t \<Rightarrow>
                 (case (if bds cons \<noteq> [] then map_of (bds cons) t else None) of
                    Some codes \<Rightarrow> (set codes, [])
                  | None \<Rightarrow> ({}, [WarnBarsNotFound])));
          s2 = (case bar_dtype_arg of
                  None \<Rightarrow> s1
                | Some l \<Rightarrow>
                    s1 \<union> (if l \<noteq> [] then set l else set [''p'', ''c'', ''t'', ''d'', ''i'', ''ct'']));
          s3 = (if ''ct'' \<in> s2 then insert ''i'' s2 else s2)
      in (s3, out))"

text \<open>
  \<open>show_time_bar\<close>, the branch \<open>if is_dc\<close>. The first loop goes over
  \<open>enumerate(path.lpath)\<close>; at the startpoint clock pin it stores the launch list, and
  then stops (\<open>data = None; break\<close>), starts the list again from its last value, or goes
  on. The state is \<open>data\<close>, \<open>db_dict['dc']\<close> and what was printed.
\<close>

fun lpath_drv_loop ::
  "string set \<Rightarrow> nat option \<Rightarrow> (nat \<times> pin) list \<Rightarrow> rat list \<Rightarrow> (string \<times> rat list) list \<Rightarrow>
     message list \<Rightarrow> rat list option \<times> (string \<times> rat list) list \<times> message list" where
  "lpath_drv_loop bar_ptype sp [] data db out = (Some data, db, out)"
| "lpath_drv_loop bar_ptype sp ((cid, ce) # rest) data db out =
     (let data1 = data @ [drv ce];
          out1 = (if drv ce < 0 then out @ [WarnUnknownDrivingCell (cell ce) (lnum ce)] else out)
      in if sp = Some cid then
           (let db1 = (if ''l'' \<in> bar_ptype then db @ [(''Launch Cell Type'', data1)] else db)
            in if ''d'' \<notin> bar_ptype then (None, db1, out1)
               else if ''f'' \<notin> bar_ptype
                    then lpath_drv_loop bar_ptype sp rest [last data1] db1 out1
                    else lpath_drv_loop bar_ptype sp rest data1 db1 out1)
         else lpath_drv_loop bar_ptype sp rest data1 db out1)"

text \<open>The second loop, over \<open>path.cpath\<close>.\<close>

fun cpath_drv_loop :: "pin list \<Rightarrow> rat list \<Rightarrow> message list \<Rightarrow> rat list \<times> message list" where
  "cpath_drv_loop [] data out = (data, out)"
| "cpath_drv_loop (ce # rest) data out =
     cpath_drv_loop rest (data @ [drv ce])
       (if drv ce < 0 then out @ [WarnUnknownDrivingCell (cell ce) (lnum ce)] else out)"

definition dc_bars ::
  "string set \<Rightarrow> time_path \<Rightarrow> (string \<times> rat list) list \<times> message list" where
  "dc_bars bar_ptype path =
     (let (ddata, db, out) =
            lpath_drv_loop bar_ptype (spin path) (enumerate 0 (lpath path)) [] [] [];
          (db1, out1) =
            (if ''c'' \<in> bar_ptype
             then (let (data, out') = cpath_drv_loop (cpath path) [] out
                   in (db @ [(''Capture Cell Type'', data)], out'))
             else (db, out));
          db2 = (case ddata of None \<Rightarrow> db1 | Some d \<Rightarrow> db1 @ [(''Path Cell Type'', d)])
      in (db2, out1))"


section \<open>Clock skew: \<open>report_summary\<close>\<close>

text \<open>
  Python's \<open>float\<close> is IEEE 754 binary64. A finite value is the rational it denotes;
  \<open>fl\<close> rounds a rational to the nearest value with a 53-bit significand, ties to the
  even significand (below \<open>2 ^ -1022\<close> the spacing stays \<open>2 ^ -1074\<close>; overflow is left
  out). A literal \<open>x\<close> is \<open>fl x\<close> and \<open>a - b\<close> is \<open>fsub a b\<close>.
\<close>

definition round_half_even :: "rat \<Rightarrow> int" where
  "round_half_even q =
     (let f = \<lfloor>q\<rfloor>; r = q - of_int f
      in if r < 1 / 2 then f else if 1 / 2 < r then f + 1 else if even f then f else f + 1)"

text \<open>The \<open>e\<close> with \<open>2 ^ e \<le> \<bar>x\<bar> < 2 ^ (e + 1)\<close>, for \<open>x \<noteq> 0\<close>.\<close>

definition ilog2 :: "rat \<Rightarrow> int" where
  "ilog2 x =
     (let (p, q) = quotient_of \<bar>x\<bar>; e0 = bitlen p - bitlen q
      in if 2 powi e0 \<le> \<bar>x\<bar> then e0 else e0 - 1)"

definition fl :: "rat \<Rightarrow> rat" where
  "fl x =
     (if x = 0 then 0
      else (let e = max (ilog2 x) (- 1022); u = 2 powi (e - 52)
            in of_int (round_half_even (x / u)) * u))"

definition fsub :: "rat \<Rightarrow> rat \<Rightarrow> rat" where
  "fsub a b = fl (a - b)"

text \<open>
  \<open>skew = path.llat - path.clat - path.crpr\<close>, with the subtraction of the attributes'
  number type as the parameter \<open>sub\<close>: \<open>fsub\<close> for floats, \<open>(-)\<close> for exact decimals.
\<close>

definition skew :: "(rat \<Rightarrow> rat \<Rightarrow> rat) \<Rightarrow> time_path \<Rightarrow> rat" where
  "skew sub path = sub (sub (llat path) (clat path)) (crpr path)"


section \<open>Properties of the string primitives and of the line loop\<close>

lemma split_on_not_Nil: "split_on c s \<noteq> []"
  by (induction s) (auto split: list.splits)

lemma length_split_on: "length (split_on c s) = Suc (count_list s c)"
proof (induction s)
  case Nil
  show ?case by simp
next
  case (Cons x xs)
  then show ?case
    using split_on_not_Nil [of c xs] by (auto split: list.splits)
qed

lemma process_line_two_pieces:
  "length (split_on CHR '':'' line) \<noteq> 2 \<Longrightarrow> process_line rc dp cons line = Inl ValueError"
  unfolding process_line_def by (auto split: list.splits)

lemma load_lines_append:
  "load_lines rc dp n cons (xs @ ys) =
     (case load_lines rc dp n cons xs of
        Inl e \<Rightarrow> Inl e
      | Inr cons' \<Rightarrow> load_lines rc dp (n + length xs) cons' ys)"
  by (induction xs arbitrary: n cons) (auto simp: Let_def split: sum.splits)

lemma load_lines_raise:
  assumes "load_lines rc dp n cons0 pre = Inr cons"
    and "content l \<noteq> []"
    and "process_line rc dp cons (content l) = Inl e"
  shows "load_lines rc dp n cons0 (pre @ l # post) = Inl (SyntaxError (n + length pre))"
  using assms by (simp add: load_lines_append)

lemma load_times_cfg_raise:
  assumes "load_lines rc dp 1 default_cfg pre = Inr cons"
    and "content l \<noteq> []"
    and "process_line rc dp cons (content l) = Inl e"
  shows "load_times_cfg rc dp (Some (pre @ l # post)) = Inl (SyntaxError (Suc (length pre)))"
  using load_lines_raise [OF assms, of post] by (simp add: load_times_cfg_def)


section \<open>A second colon in a line\<close>

text \<open>
  Claim C9. A line whose content (the comment removed, the rest stripped) holds more
  than one \<open>:\<close> is cut into more than two pieces by \<open>line.split(':')\<close>, so the unpacking
  into key and value fails whatever the key is: when the lines before it were read
  without error, \<open>load_times_cfg\<close> raises the syntax error with the number of that
  line, counted from 1, and nothing after it is read.
\<close>

theorem more_than_one_colon_is_syntax_error:
  assumes "load_lines re_compile Decimal 1 default_cfg pre = Inr cons"
    and "1 < count_list (content l) CHR '':''"
  shows "load_times_cfg re_compile Decimal (Some (pre @ l # post)) =
           Inl (SyntaxError (Suc (length pre)))"
proof -
  from assms(2) have ne: "content l \<noteq> []" by auto
  from assms(2) have "length (split_on CHR '':'' (content l)) \<noteq> 2"
    by (simp add: length_split_on)
  then have "process_line re_compile Decimal cons (content l) = Inl ValueError"
    by (rule process_line_two_pieces)
  with assms(1) ne show ?thesis by (rule load_times_cfg_raise)
qed

text \<open>A \<open>pc\<close> rule whose pattern holds a colon, on the third line of a file.\<close>

theorem more_than_one_colon_is_syntax_error_witness:
  "load_lines ex_compile ex_decimal 1 default_cfg [''# rules'', ''dpc: A'']
     = Inr (default_cfg\<lparr>dpc := Some ''A''\<rparr>) \<and>
   1 < count_list (content ''pc: A a:b.*'') CHR '':'' \<and>
   load_times_cfg ex_compile ex_decimal
     (Some ([''# rules'', ''dpc: A''] @ ''pc: A a:b.*'' # [''cc: X x.*''])) = Inl (SyntaxError 3)"
proof -
  have h1: "load_lines ex_compile ex_decimal 1 default_cfg [''# rules'', ''dpc: A'']
     = Inr ((default_cfg :: (string, nat) cons_cfg)\<lparr>dpc := Some ''A''\<rparr>)"
    by (simp add: content_def strip_def is_space_def process_line_def handle_key_def attr_def)
  have h2: "1 < count_list (content ''pc: A a:b.*'') CHR '':''"
    by (simp add: content_def strip_def is_space_def)
  show ?thesis
    using h1 h2 more_than_one_colon_is_syntax_error [OF h1 h2, of "[''cc: X x.*'']"] by simp
qed

section \<open>A key that no handler knows\<close>

lemma hd_split_on: "hd (split_on c s) = takeWhile (\<lambda>x. x \<noteq> c) s"
  using split_on_not_Nil [of c] by (induction s) (auto split: list.splits)

lemma split_on_two_key: "split_on c s = [k, v] \<Longrightarrow> k = takeWhile (\<lambda>x. x \<noteq> c) s"
  using hd_split_on [of c s] by simp

lemma split_on_one_colon:
  "count_list s c = 1 \<Longrightarrow> \<exists>k v. split_on c s = [k, v]"
proof -
  assume "count_list s c = 1"
  then have "length (split_on c s) = 2" by (simp add: length_split_on)
  then show ?thesis
    by (cases "split_on c s"; simp) (metis length_0_conv length_Suc_conv)
qed

lemma handle_key_unknown:
  "key \<notin> set handler_keys \<Longrightarrow> handle_key rc dp cons key value = Inr cons"
proof -
  assume k: "key \<notin> set handler_keys"
  then have "map_of attr key = None"
    by (simp add: handler_keys_def map_of_eq_None_iff)
  with k show ?thesis
    by (simp add: handler_keys_def handle_key_def)
qed

text \<open>
  Claim C4, as the code has it. The \<open>if\<close>/\<open>elif\<close> chain ends without an \<open>else\<close>, so a
  line \<open>key: value\<close> with exactly one colon and a key that no handler knows raises
  nothing: the configuration stays as it was and the loop goes on with the next line.
  A line with an unknown key raises the syntax error of its line number only when it
  does not hold exactly one colon.
\<close>

theorem unknown_key_line:
  assumes pre: "load_lines re_compile Decimal 1 default_cfg pre = Inr cons"
    and ne: "content l \<noteq> []"
    and unk: "line_key l \<notin> set handler_keys"
  shows "load_lines re_compile Decimal 1 default_cfg (pre @ l # post) =
           (if count_list (content l) CHR '':'' = 1
            then load_lines re_compile Decimal (Suc (Suc (length pre))) cons post
            else Inl (SyntaxError (Suc (length pre))))"
proof (cases "count_list (content l) CHR '':'' = 1")
  case True
  then obtain k v where kv: "split_on CHR '':'' (content l) = [k, v]"
    using split_on_one_colon by blast
  then have "strip k = line_key l"
    using split_on_two_key [OF kv] by (simp add: line_key_def)
  with unk kv have "process_line re_compile Decimal cons (content l) = Inr cons"
    by (simp add: process_line_def handle_key_unknown)
  with pre ne True show ?thesis by (simp add: load_lines_append)
next
  case False
  then have "length (split_on CHR '':'' (content l)) \<noteq> 2" by (simp add: length_split_on)
  then have "process_line re_compile Decimal cons (content l) = Inl ValueError"
    by (rule process_line_two_pieces)
  with pre ne False show ?thesis by (simp add: load_lines_append)
qed

text \<open>The line \<open>foo: bar\<close> between a comment and a \<open>dpc\<close> line: the \<open>dpc\<close> line is read.\<close>

theorem unknown_key_line_witness:
  "load_lines ex_compile ex_decimal 1 default_cfg [''# rules''] = Inr default_cfg \<and>
   content ''foo: bar'' \<noteq> [] \<and> line_key ''foo: bar'' \<notin> set handler_keys \<and>
   count_list (content ''foo: bar'') CHR '':'' = 1 \<and>
   load_lines ex_compile ex_decimal 1 default_cfg ([''# rules''] @ ''foo: bar'' # [''dpc: A''])
     = Inr (default_cfg\<lparr>dpc := Some ''A''\<rparr>)"
proof -
  have h1: "load_lines ex_compile ex_decimal 1 default_cfg [''# rules'']
              = Inr (default_cfg :: (string, nat) cons_cfg)"
    by (simp add: content_def strip_def is_space_def)
  have h2: "content ''foo: bar'' \<noteq> []"
    by (simp add: content_def strip_def is_space_def)
  have h3: "line_key ''foo: bar'' \<notin> set handler_keys"
    by (simp add: content_def strip_def is_space_def line_key_def handler_keys_def attr_def)
  have h4: "count_list (content ''foo: bar'') CHR '':'' = 1"
    by (simp add: content_def strip_def is_space_def)
  have h5: "load_lines ex_compile ex_decimal 3 (default_cfg :: (string, nat) cons_cfg) [''dpc: A'']
              = Inr (default_cfg\<lparr>dpc := Some ''A''\<rparr>)"
    by (simp add: content_def strip_def is_space_def process_line_def handle_key_def attr_def)
  show ?thesis
    using h1 h2 h3 h4 h5 unknown_key_line [OF h1 h2 h3, of "[''dpc: A'']"]
    by (simp add: eval_nat_numeral)
qed

text \<open>
  The claim as the spec states it fails: the one-line file \<open>foo: bar\<close> has an unknown
  key and compiles to the default configuration.
\<close>

theorem unknown_key_counterexample:
  "content ''foo: bar'' \<noteq> [] \<and> line_key ''foo: bar'' = ''foo'' \<and> ''foo'' \<notin> set handler_keys \<and>
   load_times_cfg ex_compile ex_decimal (Some [''foo: bar'']) = Inr (default_cfg, [])"
  by (simp add: content_def strip_def is_space_def line_key_def handler_keys_def attr_def
      load_times_cfg_def process_line_def handle_key_def default_cfg_def)

section \<open>The seventeen toggles\<close>

lemma distinct_attr_keys: "distinct (map fst attr)"
  by (simp add: attr_def)

lemma str_bool_lower_neq: "lower (str_bool (\<not> d)) \<noteq> lower (str_bool d)"
  by (cases d) (simp_all add: str_bool_def lower_def lower_char_def)

text \<open>
  Claim C1. For each of the seventeen keys of \<open>attr\<close>, with the key \<open>short\<close> of the
  configuration and the default \<open>d\<close>: a line \<open>key: value\<close> sets \<open>short\<close> to \<open>not d\<close>
  when the stripped value, in lower case, is the lower-case string of \<open>not d\<close>, and to
  \<open>d\<close> for every other value, the string of \<open>d\<close> itself among them.
\<close>

theorem toggle_on_explicit_opposite:
  assumes a: "(key, short, d) \<in> set attr"
    and kv: "split_on CHR '':'' line = [k, v]"
    and k: "strip k = key"
  shows "process_line re_compile Decimal cons line =
           Inr (cons\<lparr>flags := AList.update short
                  (if lower (strip v) = lower (str_bool (\<not> d)) then \<not> d else d) (flags cons)\<rparr>)
         \<and> map_of (AList.update short
                  (if lower (strip v) = lower (str_bool (\<not> d)) then \<not> d else d) (flags cons)) short
             = Some (if lower (strip v) = lower (str_bool (\<not> d)) then \<not> d else d)
         \<and> (lower (strip v) = lower (str_bool d) \<longrightarrow>
              process_line re_compile Decimal cons line
                = Inr (cons\<lparr>flags := AList.update short d (flags cons)\<rparr>))
         \<and> length attr = 17"
proof -
  from a have m: "map_of attr key = Some (short, d)"
    using distinct_attr_keys by (rule_tac map_of_is_SomeI) auto
  have p: "process_line re_compile Decimal cons line =
           Inr (cons\<lparr>flags := AList.update short
                  (if lower (strip v) = lower (str_bool (\<not> d)) then \<not> d else d) (flags cons)\<rparr>)"
    using kv k m by (simp add: process_line_def handle_key_def handle_toggle_def)
  have l: "length attr = 17" by (simp add: attr_def)
  show ?thesis using p l str_bool_lower_neq [of d]
    by (auto simp: update_conv')
qed

text \<open>\<open>slack_on_report\<close> has the default \<open>True\<close>; the value \<open>FaLsE\<close> switches it off.\<close>

theorem toggle_on_explicit_opposite_witness:
  "(''slack_on_report'', ''slk_on_rpt'', True) \<in> set attr \<and>
   split_on CHR '':'' ''slack_on_report: FaLsE'' = [''slack_on_report'', '' FaLsE''] \<and>
   strip ''slack_on_report'' = ''slack_on_report'' \<and>
   process_line ex_compile ex_decimal default_cfg ''slack_on_report: FaLsE''
     = Inr (default_cfg\<lparr>flags := AList.update ''slk_on_rpt'' False
              (flags (default_cfg :: (string, nat) cons_cfg))\<rparr>)"
proof -
  have h1: "(''slack_on_report'', ''slk_on_rpt'', True) \<in> set attr" by (simp add: attr_def)
  have h2: "split_on CHR '':'' ''slack_on_report: FaLsE'' = [''slack_on_report'', '' FaLsE'']"
    by simp
  have h3: "strip ''slack_on_report'' = ''slack_on_report''"
    by (simp add: strip_def is_space_def)
  have h4: "lower (strip '' FaLsE'') = lower (str_bool (\<not> True))"
    by (simp add: strip_def is_space_def lower_def lower_char_def str_bool_def)
  show ?thesis
    using h1 h2 h3 h4
      toggle_on_explicit_opposite [OF h1 h2 h3, of ex_compile ex_decimal
        "default_cfg :: (string, nat) cons_cfg"]
    by simp
qed

section \<open>A value that its handler rejects\<close>





section \<open>The sticky tag\<close>

lemma first_match_find:
  "first_match fm seg a = map_option fst (List.find (\<lambda>e. fm (snd e) a) seg)"
  by (induction seg) auto

lemma first_match_iff:
  "first_match fm seg a = Some key \<longleftrightarrow>
     (\<exists>i<length seg. fst (seg ! i) = key \<and> fm (snd (seg ! i)) a \<and>
                      (\<forall>j<i. \<not> fm (snd (seg ! j)) a))"
proof -
  have "first_match fm seg a = Some key \<longleftrightarrow>
          (\<exists>e. List.find (\<lambda>e. fm (snd e) a) seg = Some e \<and> fst e = key)"
    by (auto simp: first_match_find)
  also have "\<dots> \<longleftrightarrow> (\<exists>i<length seg. fst (seg ! i) = key \<and> fm (snd (seg ! i)) a \<and>
                      (\<forall>j<i. \<not> fm (snd (seg ! j)) a))"
    unfolding find_Some_iff by blast
  finally show ?thesis .
qed

lemma first_match_in_keys: "first_match fm seg a = Some key \<Longrightarrow> key \<in> fst ` set seg"
  by (auto simp: first_match_iff)

lemma next_tag_keyed:
  assumes "keyed seg init" and "keyed seg tag"
  shows "\<exists>t. next_tag fm seg init tag a = Inr t \<and> keyed seg t \<and>
           t = (if seg = [] then tag
                else if (\<exists>k r. tag = Some k \<and> map_of seg k = Some r \<and> fm r a) then tag
                else (case first_match fm seg a of Some key \<Rightarrow> Some key | None \<Rightarrow> init))"
proof (cases tag)
  case None
  with assms show ?thesis
    by (auto simp: next_tag_def keyed_def first_match_in_keys split: option.splits)
next
  case (Some k)
  with assms(2) have "k \<in> fst ` set seg" by (simp add: keyed_def)
  then obtain r where r: "map_of seg k = Some r"
    by (metis map_of_eq_None_iff not_Some_eq)
  with Some assms show ?thesis
    by (auto simp: next_tag_def keyed_def first_match_in_keys split: option.splits)
qed

lemma tag_walk_steps:
  assumes f: "\<And>tag a. keyed seg tag \<Longrightarrow>
                next_tag fm seg init tag a = Inr (f tag a) \<and> keyed seg (f tag a)"
    and "keyed seg tag"
  shows "\<exists>ts. tag_walk fm seg init tag as = Inr ts \<and> length ts = length as \<and>
           (\<forall>i<length as. ts ! i = f (if i = 0 then tag else ts ! (i - 1)) (as ! i))"
  using assms(2)
proof (induction as arbitrary: tag)
  case Nil
  show ?case by simp
next
  case (Cons a as)
  from f [OF Cons.prems, of a]
  have t: "next_tag fm seg init tag a = Inr (f tag a)" "keyed seg (f tag a)" by simp_all
  from Cons.IH [OF t(2)] obtain ts where ts: "tag_walk fm seg init (f tag a) as = Inr ts"
    "length ts = length as"
    and step: "\<And>i. i < length as \<Longrightarrow>
                 ts ! i = f (if i = 0 then f tag a else ts ! (i - 1)) (as ! i)"
    by blast
  have w: "tag_walk fm seg init tag (a # as) = Inr (f tag a # ts)"
    using t(1) ts(1) by simp
  have "(f tag a # ts) ! i =
          f (if i = 0 then tag else (f tag a # ts) ! (i - 1)) ((a # as) ! i)"
    if i: "i < length (a # as)" for i
  proof (cases i)
    case 0
    then show ?thesis by simp
  next
    case (Suc j)
    with i have j: "j < length as" by simp
    from step [OF j] show ?thesis
      using Suc by (cases j) simp_all
  qed
  with w ts(2) show ?case by simp
qed

lemma next_tag_step:
  assumes "keyed seg init" and "keyed seg tag"
  shows "next_tag fm seg init tag a =
           Inr (if seg = [] then tag
                else if (\<exists>k r. tag = Some k \<and> map_of seg k = Some r \<and> fm r a) then tag
                else (case first_match fm seg a of Some key \<Rightarrow> Some key | None \<Rightarrow> init))
         \<and> keyed seg
             (if seg = [] then tag
                else if (\<exists>k r. tag = Some k \<and> map_of seg k = Some r \<and> fm r a) then tag
                else (case first_match fm seg a of Some key \<Rightarrow> Some key | None \<Rightarrow> init))"
  using next_tag_keyed [OF assms, of fm a] by auto

text \<open>
  Claim C2, as the code has it. A walk that starts from a tag that is \<open>None\<close> or a key
  of the table never raises, and gives every cell a tag by this rule, \<open>prev\<close> being the
  tag of the cell before (the start tag for the first cell): with an empty table the
  tag stays; when the pattern of \<open>prev\<close> matches the whole attribute of the cell, the
  tag stays and the table is not looked at; otherwise the tag is the key of the first
  entry, in the order of the table, whose pattern matches, and \<open>init_tag\<close> when no
  entry matches. So a cell that matches nothing sends the walk back to \<open>init_tag\<close>; it
  does not go on under the tag it had. The last part says what the first entry is: the
  one before which no entry matches.
\<close>

theorem sticky_tag_walk:
  assumes "\<forall>k. init_tag = Some k \<longrightarrow> k \<in> fst ` set seg_dict"
    and "\<forall>k. tag = Some k \<longrightarrow> k \<in> fst ` set seg_dict"
  shows "(\<exists>ts. tag_walk fullmatch seg_dict init_tag tag as = Inr ts \<and> length ts = length as \<and>
           (\<forall>i<length as.
              ts ! i =
                (let prev = (if i = 0 then tag else ts ! (i - 1)) in
                 if seg_dict = [] then prev
                 else if (\<exists>k r. prev = Some k \<and> map_of seg_dict k = Some r \<and> fullmatch r (as ! i))
                      then prev
                 else (case first_match fullmatch seg_dict (as ! i) of
                         Some key \<Rightarrow> Some key
                       | None \<Rightarrow> init_tag))))
         \<and> (\<forall>a key. first_match fullmatch seg_dict a = Some key \<longleftrightarrow>
                (\<exists>n<length seg_dict. fst (seg_dict ! n) = key \<and>
                   fullmatch (snd (seg_dict ! n)) a \<and>
                   (\<forall>m<n. \<not> fullmatch (snd (seg_dict ! m)) a)))"
proof (rule conjI)
  show "\<forall>a key. first_match fullmatch seg_dict a = Some key \<longleftrightarrow>
                (\<exists>n<length seg_dict. fst (seg_dict ! n) = key \<and>
                   fullmatch (snd (seg_dict ! n)) a \<and>
                   (\<forall>m<n. \<not> fullmatch (snd (seg_dict ! m)) a))"
    by (intro allI) (rule first_match_iff)
next
  from assms have k: "keyed seg_dict init_tag" "keyed seg_dict tag"
    by (simp_all add: keyed_def)
  show "\<exists>ts. tag_walk fullmatch seg_dict init_tag tag as = Inr ts \<and> length ts = length as \<and>
           (\<forall>i<length as.
              ts ! i =
                (let prev = (if i = 0 then tag else ts ! (i - 1)) in
                 if seg_dict = [] then prev
                 else if (\<exists>k r. prev = Some k \<and> map_of seg_dict k = Some r \<and> fullmatch r (as ! i))
                      then prev
                 else (case first_match fullmatch seg_dict (as ! i) of
                         Some key \<Rightarrow> Some key
                       | None \<Rightarrow> init_tag)))"
    unfolding Let_def
    by (rule tag_walk_steps [where f = "\<lambda>prev a.
             if seg_dict = [] then prev
             else if (\<exists>k r. prev = Some k \<and> map_of seg_dict k = Some r \<and> fullmatch r a) then prev
             else (case first_match fullmatch seg_dict a of
                     Some key \<Rightarrow> Some key | None \<Rightarrow> init_tag)", OF _ k(2)])
       (rule next_tag_step [OF k(1)])
qed


text \<open>The four cells \<open>a1, a2, b1, a3\<close> with the default tag \<open>A\<close>: the runs are \<open>A A\<close>, \<open>B\<close>, \<open>A\<close>.\<close>

theorem sticky_tag_walk_witness:
  "''A'' \<in> fst ` set [(''A'', ''a.*''), (''B'', ''b.*'')] \<and>
   (\<exists>ts. tag_walk ex_fullmatch [(''A'', ''a.*''), (''B'', ''b.*'')] (Some ''A'') (Some ''A'')
            [''a1'', ''a2'', ''b1'', ''a3''] = Inr ts \<and> length ts = 4) \<and>
   tag_walk ex_fullmatch [(''A'', ''a.*''), (''B'', ''b.*'')] (Some ''A'') (Some ''A'')
     [''a1'', ''a2'', ''b1'', ''a3''] = Inr [Some ''A'', Some ''A'', Some ''B'', Some ''A'']"
proof -
  have h: "\<forall>k. Some ''A'' = Some k \<longrightarrow> k \<in> fst ` set [(''A'', ''a.*''), (''B'', ''b.*'')]"
    by simp
  have e: "tag_walk ex_fullmatch [(''A'', ''a.*''), (''B'', ''b.*'')] (Some ''A'') (Some ''A'')
     [''a1'', ''a2'', ''b1'', ''a3''] = Inr [Some ''A'', Some ''A'', Some ''B'', Some ''A'']"
    by (simp add: next_tag_def ex_fullmatch_def)
  from sticky_tag_walk [OF h h, of ex_fullmatch "[''a1'', ''a2'', ''b1'', ''a3'']",
      THEN conjunct1]
  have "\<exists>ts. tag_walk ex_fullmatch [(''A'', ''a.*''), (''B'', ''b.*'')] (Some ''A'') (Some ''A'')
            [''a1'', ''a2'', ''b1'', ''a3''] = Inr ts \<and> length ts = 4"
    by auto
  moreover have "''A'' \<in> fst ` set [(''A'', ''a.*''), (''B'', ''b.*'')]" by simp
  ultimately show ?thesis using e by blast
qed

text \<open>
  The claim as the spec states it fails: after \<open>b1\<close> the tag is \<open>B\<close>; \<open>x1\<close> matches no
  entry, and its tag is the default \<open>A\<close>, not \<open>B\<close>.
\<close>

theorem sticky_tag_counterexample:
  "first_match ex_fullmatch [(''A'', ''a.*''), (''B'', ''b.*'')] ''x1'' = None \<and>
   path_tags ex_fullmatch ''name'' ''A'' [(''A'', ''a.*''), (''B'', ''b.*'')]
     [\<lparr>name = ''b1'', cell = ''BUF'', drv = 1, lnum = 10\<rparr>,
      \<lparr>name = ''x1'', cell = ''BUF'', drv = 1, lnum = 11\<rparr>]
     = Inr [Some ''B'', Some ''A'']"
  by (simp add: path_tags_def init_tag_of_def pin_attr_def next_tag_def ex_fullmatch_def)

section \<open>The first match wins\<close>

lemma ckt_type_find:
  "ckt_type fm rules a = map_option fst (List.find (\<lambda>e. fm (snd e) a) rules)"
  by (induction rules) auto

lemma ckt_type_iff:
  "ckt_type fm rules a = Some b \<longleftrightarrow>
     (\<exists>i<length rules. fst (rules ! i) = b \<and> fm (snd (rules ! i)) a \<and>
                        (\<forall>j<i. \<not> fm (snd (rules ! j)) a))"
proof -
  have "ckt_type fm rules a = Some b \<longleftrightarrow>
          (\<exists>e. List.find (\<lambda>e. fm (snd e) a) rules = Some e \<and> fst e = b)"
    by (auto simp: ckt_type_find)
  also have "\<dots> \<longleftrightarrow> (\<exists>i<length rules. fst (rules ! i) = b \<and> fm (snd (rules ! i)) a \<and>
                      (\<forall>j<i. \<not> fm (snd (rules ! j)) a))"
    unfolding find_Some_iff by blast
  finally show ?thesis .
qed

lemma update_new_key: "k \<notin> fst ` set al \<Longrightarrow> AList.update k v al = al @ [(k, v)]"
  by (induction al) auto

lemma not_attr_key_tables:
  "map_of attr ''ckt'' = None" "map_of attr ''pc'' = None" "map_of attr ''cc'' = None"
  "map_of attr ''dc'' = None"
  by (simp_all add: attr_def)

lemma handle_ckt_Inr:
  assumes "handle_key rc dp cons ''ckt'' v = Inr c"
  shows "\<exists>tag p r. split_ws v = [tag, p] \<and> rc p = Some r \<and>
           ckt c = ckt cons @ [(lower tag = ''y'', r)]"
  using assms
  by (auto simp: handle_key_def not_attr_key_tables handle_ckt_def
           split: list.splits option.splits if_splits)

lemma handle_pc_Inr:
  assumes "handle_key rc dp cons ''pc'' v = Inr c"
  shows "\<exists>tag p r. split_ws v = [tag, p] \<and> rc p = Some r \<and>
           pc c = AList.update tag r (pc cons) \<and>
           (tag \<notin> fst ` set (pc cons) \<longrightarrow> pc c = pc cons @ [(tag, r)])"
  using assms
  by (auto simp: handle_key_def not_attr_key_tables handle_pc_def update_new_key
           split: list.splits option.splits if_splits)

lemma handle_cc_Inr:
  assumes "handle_key rc dp cons ''cc'' v = Inr c"
  shows "\<exists>tag p r. split_ws v = [tag, p] \<and> rc p = Some r \<and>
           cc c = AList.update tag r (cc cons) \<and>
           (tag \<notin> fst ` set (cc cons) \<longrightarrow> cc c = cc cons @ [(tag, r)])"
  using assms
  by (auto simp: handle_key_def not_attr_key_tables handle_cc_def update_new_key
           split: list.splits option.splits if_splits)

lemma earlier_entry_wins:
  assumes "i < j" "j < length tbl" "distinct (map fst tbl)" "fm (snd (tbl ! i)) a"
  shows "first_match fm tbl a \<noteq> Some (fst (tbl ! j))"
proof
  assume "first_match fm tbl a = Some (fst (tbl ! j))"
  then obtain m where m: "m < length tbl" "fst (tbl ! m) = fst (tbl ! j)"
    "\<forall>n<m. \<not> fm (snd (tbl ! n)) a"
    unfolding first_match_iff by blast
  from m(1,2) assms(2,3) have "m = j"
    by (metis length_map nth_eq_iff_index_eq nth_map)
  with m(3) assms(1,4) show False by blast
qed

text \<open>
  Claim C6, as the code has it. A \<open>ckt\<close> line puts its rule at the end of the list. A
  \<open>pc\<close> or \<open>cc\<close> line stores the compiled pattern under its tag: at the end of the
  table when the tag is new, and in the place of the old pattern when the tag is there
  already. The lookup gives the key of the first entry, in the order of the table,
  whose pattern matches the whole text; so in a table with distinct tags an entry that
  matches wins over every later one. The lookup in the \<open>ckt\<close> rules is the one the spec
  describes.
\<close>

theorem first_match_wins:
  "(handle_key rc dp cons ''ckt'' v1 = Inr c1 \<longrightarrow>
      (\<exists>tag p r. split_ws v1 = [tag, p] \<and> rc p = Some r \<and>
                  ckt c1 = ckt cons @ [(lower tag = ''y'', r)])) \<and>
   (handle_key rc dp cons ''pc'' v2 = Inr c2 \<longrightarrow>
      (\<exists>tag p r. split_ws v2 = [tag, p] \<and> rc p = Some r \<and>
                  pc c2 = AList.update tag r (pc cons) \<and>
                  (tag \<notin> fst ` set (pc cons) \<longrightarrow> pc c2 = pc cons @ [(tag, r)]))) \<and>
   (handle_key rc dp cons ''cc'' v3 = Inr c3 \<longrightarrow>
      (\<exists>tag p r. split_ws v3 = [tag, p] \<and> rc p = Some r \<and>
                  cc c3 = AList.update tag r (cc cons) \<and>
                  (tag \<notin> fst ` set (cc cons) \<longrightarrow> cc c3 = cc cons @ [(tag, r)]))) \<and>
   (first_match fullmatch tbl a = Some key \<longleftrightarrow>
      (\<exists>n<length tbl. fst (tbl ! n) = key \<and> fullmatch (snd (tbl ! n)) a \<and>
                      (\<forall>m<n. \<not> fullmatch (snd (tbl ! m)) a))) \<and>
   (i < j \<and> j < length tbl \<and> distinct (map fst tbl) \<and> fullmatch (snd (tbl ! i)) a \<longrightarrow>
      first_match fullmatch tbl a \<noteq> Some (fst (tbl ! j))) \<and>
   (ckt_type fullmatch rules a = Some b \<longleftrightarrow>
      (\<exists>n<length rules. fst (rules ! n) = b \<and> fullmatch (snd (rules ! n)) a \<and>
                        (\<forall>m<n. \<not> fullmatch (snd (rules ! m)) a)))"
  using handle_ckt_Inr [of rc dp cons v1 c1] handle_pc_Inr [of rc dp cons v2 c2]
    handle_cc_Inr [of rc dp cons v3 c3] first_match_iff [of fullmatch tbl a key]
    earlier_entry_wins [of i j tbl fullmatch a] ckt_type_iff [of fullmatch rules a b]
  by blast

text \<open>
  The claim as the spec states it fails when a tag comes twice: \<open>B .*\<close> stands on line 2
  and \<open>A x.*\<close> on line 3, both match \<open>x1\<close>, and the lookup gives \<open>A\<close>, the rule that was
  declared later, because \<open>A\<close> keeps the place of line 1. And in a walk the table is
  not looked up while the current tag matches: after \<open>b1\<close> the tag is \<open>B\<close>, and \<open>a1\<close> keeps
  \<open>B\<close> although the earlier rule \<open>A a.*\<close> matches it too.
\<close>

theorem first_match_counterexample:
  "load_times_cfg ex_compile ex_decimal (Some [''pc: A a.*'', ''pc: B .*'', ''pc: A x.*''])
     = Inr (default_cfg\<lparr>pc := [(''A'', ''x.*''), (''B'', ''.*'')]\<rparr>, []) \<and>
   ex_fullmatch ''.*'' ''x1'' \<and> ex_fullmatch ''x.*'' ''x1'' \<and>
   first_match ex_fullmatch [(''A'', ''x.*''), (''B'', ''.*'')] ''x1'' = Some ''A'' \<and>
   ex_fullmatch ''a.*'' ''a1'' \<and> ex_fullmatch ''.*'' ''a1'' \<and>
   path_tags ex_fullmatch ''name'' ''TP'' [(''A'', ''a.*''), (''B'', ''.*'')]
     [\<lparr>name = ''b1'', cell = ''BUF'', drv = 1, lnum = 10\<rparr>,
      \<lparr>name = ''a1'', cell = ''BUF'', drv = 1, lnum = 11\<rparr>]
     = Inr [Some ''B'', Some ''B'']"
  by (simp add: load_times_cfg_def content_def strip_def is_space_def process_line_def
      handle_key_def attr_def handle_pc_def split_ws_def ex_compile_def ex_fullmatch_def
      default_cfg_def path_tags_def init_tag_of_def pin_attr_def next_tag_def)


text \<open>One line for each table, and a lookup in a table of two rules that overlap.\<close>

theorem first_match_wins_witness:
  "handle_key ex_compile ex_decimal (default_cfg :: (string, nat) cons_cfg) ''ckt'' ''Y BUF.*''
     = Inr (default_cfg\<lparr>ckt := [(True, ''BUF.*'')]\<rparr>) \<and>
   handle_key ex_compile ex_decimal (default_cfg :: (string, nat) cons_cfg) ''pc'' ''A a.*''
     = Inr (default_cfg\<lparr>pc := [(''A'', ''a.*'')]\<rparr>) \<and>
   handle_key ex_compile ex_decimal (default_cfg :: (string, nat) cons_cfg) ''cc'' ''X x.*''
     = Inr (default_cfg\<lparr>cc := [(''X'', ''x.*'')]\<rparr>) \<and>
   ((0::nat) < 1 \<and> 1 < length [(''A'', ''a.*''), (''B'', ''.*'')] \<and>
    distinct (map fst [(''A'', ''a.*''), (''B'', ''.*'')]) \<and>
    ex_fullmatch (snd ([(''A'', ''a.*''), (''B'', ''.*'')] ! 0)) ''a1'') \<and>
   ex_fullmatch ''.*'' ''a1'' \<and>
   first_match ex_fullmatch [(''A'', ''a.*''), (''B'', ''.*'')] ''a1'' = Some ''A'' \<and>
   first_match ex_fullmatch [(''A'', ''a.*''), (''B'', ''.*'')] ''a1''
     \<noteq> Some (fst ([(''A'', ''a.*''), (''B'', ''.*'')] ! 1)) \<and>
   ckt_type ex_fullmatch [(True, ''BUF.*''), (False, ''.*'')] ''BUFX2'' = Some True \<and>
   ((\<exists>tag p r. split_ws ''Y BUF.*'' = [tag, p] \<and> ex_compile p = Some r) \<and>
    (\<exists>tag p r. split_ws ''A a.*'' = [tag, p] \<and> ex_compile p = Some r) \<and>
    (\<exists>tag p r. split_ws ''X x.*'' = [tag, p] \<and> ex_compile p = Some r))"
proof -
  have h1: "handle_key ex_compile ex_decimal (default_cfg :: (string, nat) cons_cfg) ''ckt''
              ''Y BUF.*'' = Inr (default_cfg\<lparr>ckt := [(True, ''BUF.*'')]\<rparr>)"
    by (simp add: handle_key_def attr_def handle_ckt_def split_ws_def is_space_def ex_compile_def
        lower_def lower_char_def default_cfg_def)
  have h2: "handle_key ex_compile ex_decimal (default_cfg :: (string, nat) cons_cfg) ''pc''
              ''A a.*'' = Inr (default_cfg\<lparr>pc := [(''A'', ''a.*'')]\<rparr>)"
    by (simp add: handle_key_def attr_def handle_pc_def split_ws_def is_space_def ex_compile_def
        default_cfg_def)
  have h3: "handle_key ex_compile ex_decimal (default_cfg :: (string, nat) cons_cfg) ''cc''
              ''X x.*'' = Inr (default_cfg\<lparr>cc := [(''X'', ''x.*'')]\<rparr>)"
    by (simp add: handle_key_def attr_def handle_cc_def split_ws_def is_space_def ex_compile_def
        default_cfg_def)
  have h4: "(0::nat) < 1 \<and> 1 < length [(''A'', ''a.*''), (''B'', ''.*'')] \<and>
    distinct (map fst [(''A'', ''a.*''), (''B'', ''.*'')]) \<and>
    ex_fullmatch (snd ([(''A'', ''a.*''), (''B'', ''.*'')] ! 0)) ''a1''"
    by (simp add: ex_fullmatch_def)
  have h5: "ex_fullmatch ''.*'' ''a1''" by (simp add: ex_fullmatch_def)
  have h6: "first_match ex_fullmatch [(''A'', ''a.*''), (''B'', ''.*'')] ''a1'' = Some ''A''"
    by (simp add: ex_fullmatch_def)
  have h7: "ckt_type ex_fullmatch [(True, ''BUF.*''), (False, ''.*'')] ''BUFX2'' = Some True"
    by (simp add: ex_fullmatch_def)
  from h4 first_match_wins [where rc = ex_compile and dp = ex_decimal
      and cons = "default_cfg :: (string, nat) cons_cfg"
      and fullmatch = ex_fullmatch and tbl = "[(''A'', ''a.*''), (''B'', ''.*'')]"
      and a = "''a1''" and i = 0 and j = 1]
  have c: "first_match ex_fullmatch [(''A'', ''a.*''), (''B'', ''.*'')] ''a1''
     \<noteq> Some (fst ([(''A'', ''a.*''), (''B'', ''.*'')] ! 1))"
    by blast
  note T = first_match_wins [where rc = ex_compile and dp = ex_decimal
      and cons = "default_cfg :: (string, nat) cons_cfg"
      and ?v1.0 = "''Y BUF.*''" and ?c1.0 = "default_cfg\<lparr>ckt := [(True, ''BUF.*'')]\<rparr>"
      and ?v2.0 = "''A a.*''" and ?c2.0 = "default_cfg\<lparr>pc := [(''A'', ''a.*'')]\<rparr>"
      and ?v3.0 = "''X x.*''" and ?c3.0 = "default_cfg\<lparr>cc := [(''X'', ''x.*'')]\<rparr>"]
  from T [THEN conjunct1, THEN mp, OF h1]
  have d1: "\<exists>tag p r. split_ws ''Y BUF.*'' = [tag, p] \<and> ex_compile p = Some r"
    by blast
  from T [THEN conjunct2, THEN conjunct1, THEN mp, OF h2]
  have d2: "\<exists>tag p r. split_ws ''A a.*'' = [tag, p] \<and> ex_compile p = Some r"
    by blast
  from T [THEN conjunct2, THEN conjunct2, THEN conjunct1, THEN mp, OF h3]
  have d3: "\<exists>tag p r. split_ws ''X x.*'' = [tag, p] \<and> ex_compile p = Some r"
    by blast
  note d = conjI [OF d1 conjI [OF d2 d3]]
  from h1 h2 h3 h4 h5 h6 h7 c d show ?thesis by (intro conjI) simp_all
qed

section \<open>The key \<open>re\<close> of the driving-cell table\<close>

text \<open>
  Claim C10. \<open>dc\<close> is one dictionary. A line \<open>dc: r pattern\<close> stores the compiled
  pattern under the key \<open>re\<close>, and a line \<open>dc: number re\<close> stores the number under the
  same key \<open>re\<close>, the name of the cell. Whichever of the two lines comes later replaces
  what the earlier one stored.
\<close>

theorem dc_re_key_collision:
  assumes va: "split_ws va = ''r'' # p # xs" and p: "re_compile p = Some r"
    and vb: "split_ws vb = v1 # ''re'' # ys" and v1: "v1 \<noteq> ''r''" and d: "Decimal v1 = Some d"
  shows "(\<exists>c1 c2. handle_key re_compile Decimal cons ''dc'' va = Inr c1 \<and>
                  handle_key re_compile Decimal c1 ''dc'' vb = Inr c2 \<and>
                  dc c1 = AList.update ''re'' (DcRe r) (dc cons) \<and>
                  dc c2 = AList.update ''re'' (DcNum d) (dc cons) \<and>
                  map_of (dc c2) ''re'' = Some (DcNum d)) \<and>
         (\<exists>c1 c2. handle_key re_compile Decimal cons ''dc'' vb = Inr c1 \<and>
                  handle_key re_compile Decimal c1 ''dc'' va = Inr c2 \<and>
                  dc c1 = AList.update ''re'' (DcNum d) (dc cons) \<and>
                  dc c2 = AList.update ''re'' (DcRe r) (dc cons) \<and>
                  map_of (dc c2) ''re'' = Some (DcRe r))"
proof -
  have a: "handle_key re_compile Decimal c ''dc'' va
             = Inr (c\<lparr>dc := AList.update ''re'' (DcRe r) (dc c)\<rparr>)" for c
    using va p by (simp add: handle_key_def not_attr_key_tables handle_dc_def)
  have b: "handle_key re_compile Decimal c ''dc'' vb
             = Inr (c\<lparr>dc := AList.update ''re'' (DcNum d) (dc c)\<rparr>)" for c
    using vb v1 d by (simp add: handle_key_def not_attr_key_tables handle_dc_def)
  show ?thesis
    by (simp add: a b update_conv')
qed

text \<open>The lines \<open>dc: r BUF.*\<close> and then \<open>dc: 12 re\<close>: the pattern is gone.\<close>

theorem dc_re_key_collision_witness:
  "split_ws ''r BUF.*'' = ''r'' # ''BUF.*'' # [] \<and> ex_compile ''BUF.*'' = Some ''BUF.*'' \<and>
   split_ws ''12 re'' = ''12'' # ''re'' # [] \<and> ''12'' \<noteq> ''r'' \<and> ex_decimal ''12'' = Some 12 \<and>
   (\<exists>c1 c2. handle_key ex_compile ex_decimal (default_cfg :: (string, nat) cons_cfg) ''dc''
               ''r BUF.*'' = Inr c1 \<and>
            handle_key ex_compile ex_decimal c1 ''dc'' ''12 re'' = Inr c2 \<and>
            dc c1 = [(''re'', DcRe ''BUF.*'')] \<and> dc c2 = [(''re'', DcNum 12)])"
proof -
  have h1: "split_ws ''r BUF.*'' = ''r'' # ''BUF.*'' # []"
    by (simp add: split_ws_def is_space_def)
  have h2: "ex_compile ''BUF.*'' = Some ''BUF.*''" by (simp add: ex_compile_def)
  have h3: "split_ws ''12 re'' = ''12'' # ''re'' # []"
    by (simp add: split_ws_def is_space_def)
  have h4: "''12'' \<noteq> ''r''" by simp
  have h5: "ex_decimal ''12'' = Some 12" by (simp add: ex_decimal_def)
  have e: "dc (default_cfg :: (string, nat) cons_cfg) = []" by (simp add: default_cfg_def)
  from dc_re_key_collision [where re_compile = ex_compile and Decimal = ex_decimal
      and cons = "default_cfg :: (string, nat) cons_cfg", OF h1 h2 h3 h4 h5, THEN conjunct1]
  have "\<exists>c1 c2. handle_key ex_compile ex_decimal (default_cfg :: (string, nat) cons_cfg) ''dc''
               ''r BUF.*'' = Inr c1 \<and>
            handle_key ex_compile ex_decimal c1 ''dc'' ''12 re'' = Inr c2 \<and>
            dc c1 = [(''re'', DcRe ''BUF.*'')] \<and> dc c2 = [(''re'', DcNum 12)]"
    unfolding e by auto
  with h1 h2 h3 h4 h5 show ?thesis by (intro conjI) simp_all
qed

section \<open>Advice is not an error\<close>

lemma cpath_drv_loop_eq:
  "cpath_drv_loop cells data out =
     (data @ map drv cells,
      out @ [WarnUnknownDrivingCell (cell c) (lnum c). c \<leftarrow> cells, drv c < 0])"
  by (induction cells arbitrary: data out) auto

lemma lpath_drv_loop_out:
  "snd (snd (lpath_drv_loop bp sp (enumerate n xs) data db out)) =
     out @ [WarnUnknownDrivingCell (cell c) (lnum c).
              c \<leftarrow> (if ''d'' \<in> bp then xs
                    else case sp of
                           None \<Rightarrow> xs
                         | Some s \<Rightarrow> if s < n then xs else take (Suc (s - n)) xs),
              drv c < 0]"
proof (induction xs arbitrary: n data db out)
  case Nil
  show ?case by (simp split: option.splits)
next
  case (Cons x xs)
  have s: "s - n = Suc (s - Suc n)" if "n < s" for s
    using that by simp
  show ?case
    using Cons.IH by (auto simp: Let_def s split: option.splits)
qed

lemma dc_bars_out:
  "snd (dc_bars bp path) =
     [WarnUnknownDrivingCell (cell c) (lnum c).
        c \<leftarrow> (if ''d'' \<in> bp then lpath path
              else case spin path of None \<Rightarrow> lpath path | Some s \<Rightarrow> take (Suc s) (lpath path))
            @ (if ''c'' \<in> bp then cpath path else []),
        drv c < 0]"
proof -
  obtain ddata db out where l:
    "lpath_drv_loop bp (spin path) (enumerate 0 (lpath path)) [] [] [] = (ddata, db, out)"
    by (metis prod_cases3)
  from lpath_drv_loop_out [of bp "spin path" 0 "lpath path" "[]" "[]" "[]"] l
  have out: "out = [WarnUnknownDrivingCell (cell c) (lnum c).
        c \<leftarrow> (if ''d'' \<in> bp then lpath path
              else case spin path of None \<Rightarrow> lpath path | Some s \<Rightarrow> take (Suc s) (lpath path)),
        drv c < 0]"
    by (simp split: option.splits)
  show ?thesis
    unfolding dc_bars_def l by (simp add: cpath_drv_loop_eq out split: option.splits)
qed

lemma dc_bars_capture:
  "''c'' \<in> bp \<Longrightarrow> (''Capture Cell Type'', map drv (cpath path)) \<in> set (fst (dc_bars bp path))"
proof -
  assume c: "''c'' \<in> bp"
  obtain ddata db out where l:
    "lpath_drv_loop bp (spin path) (enumerate 0 (lpath path)) [] [] [] = (ddata, db, out)"
    by (metis prod_cases3)
  show ?thesis
    unfolding dc_bars_def l using c by (simp add: cpath_drv_loop_eq split: option.splits)
qed

lemma select_bar_dtype_missing:
  "tag \<notin> fst ` set (bds cons) \<Longrightarrow>
     select_bar_dtype cons (Some tag) bd = (fst (select_bar_dtype cons None bd), [WarnBarsNotFound])"
proof -
  assume "tag \<notin> fst ` set (bds cons)"
  then have "map_of (bds cons) tag = None" by (simp add: map_of_eq_None_iff)
  then show ?thesis by (simp add: select_bar_dtype_def Let_def)
qed

lemma load_times_cfg_drops_dpc:
  "load_lines rc dp 1 default_cfg fp = Inr cons \<Longrightarrow> dpc cons = Some t \<Longrightarrow>
   t \<notin> fst ` set (pc cons) \<Longrightarrow>
   load_times_cfg rc dp (Some fp) = Inr (cons\<lparr>dpc := None\<rparr>, [InfoNoDefaultGroup])"
  by (simp add: load_times_cfg_def)

text \<open>
  Claim C7. Three conditions give advice and the run goes on.
  \<^item> When the lines were read without error and \<open>dpc\<close> names a tag that is no key of
    \<open>pc\<close>, \<open>load_times_cfg\<close> returns the configuration with \<open>dpc\<close> set back to \<open>None\<close>,
    and prints the notice.
  \<^item> When the tag of \<open>-bars\<close> is no key of \<open>bds\<close>, the data types of the bar charts are
    those that the run without \<open>-bars\<close> would have, and the warning is printed.
  \<^item> The driving-cell lists are built for every cell that the loops reach (all of
    \<open>lpath\<close>, or its cells up to the startpoint clock pin when the data path is not
    asked for, and all of \<open>cpath\<close> when the capture path is asked for): each cell with
    a negative \<open>drv\<close> adds one warning and its value stays in the list.
\<close>

theorem advice_is_not_fatal:
  "(load_lines re_compile Decimal 1 default_cfg fp = Inr cons \<and> dpc cons = Some t \<and>
    t \<notin> fst ` set (pc cons) \<longrightarrow>
      load_times_cfg re_compile Decimal (Some fp) = Inr (cons\<lparr>dpc := None\<rparr>, [InfoNoDefaultGroup])) \<and>
   (tag \<notin> fst ` set (bds cons') \<longrightarrow>
      select_bar_dtype cons' (Some tag) bar_dtype
        = (fst (select_bar_dtype cons' None bar_dtype), [WarnBarsNotFound])) \<and>
   snd (dc_bars bar_ptype path) =
     [WarnUnknownDrivingCell (cell c) (lnum c).
        c \<leftarrow> (if ''d'' \<in> bar_ptype then lpath path
              else case spin path of None \<Rightarrow> lpath path | Some s \<Rightarrow> take (Suc s) (lpath path))
            @ (if ''c'' \<in> bar_ptype then cpath path else []),
        drv c < 0] \<and>
   (''c'' \<in> bar_ptype \<longrightarrow>
      (''Capture Cell Type'', map drv (cpath path)) \<in> set (fst (dc_bars bar_ptype path)))"
proof (intro conjI impI)
  assume "load_lines re_compile Decimal 1 default_cfg fp = Inr cons \<and> dpc cons = Some t \<and>
          t \<notin> fst ` set (pc cons)"
  then show "load_times_cfg re_compile Decimal (Some fp)
               = Inr (cons\<lparr>dpc := None\<rparr>, [InfoNoDefaultGroup])"
    by (elim conjE) (rule load_times_cfg_drops_dpc)
next
  assume "tag \<notin> fst ` set (bds cons')"
  then show "select_bar_dtype cons' (Some tag) bar_dtype
               = (fst (select_bar_dtype cons' None bar_dtype), [WarnBarsNotFound])"
    by (rule select_bar_dtype_missing)
next
  show "snd (dc_bars bar_ptype path) =
     [WarnUnknownDrivingCell (cell c) (lnum c).
        c \<leftarrow> (if ''d'' \<in> bar_ptype then lpath path
              else case spin path of None \<Rightarrow> lpath path | Some s \<Rightarrow> take (Suc s) (lpath path))
            @ (if ''c'' \<in> bar_ptype then cpath path else []),
        drv c < 0]"
    by (rule dc_bars_out)
next
  assume "''c'' \<in> bar_ptype"
  then show "(''Capture Cell Type'', map drv (cpath path)) \<in> set (fst (dc_bars bar_ptype path))"
    by (rule dc_bars_capture)
qed

text \<open>
  A file whose \<open>dpc\<close> names no \<open>pc\<close> tag, a \<open>-bars\<close> tag that \<open>bds\<close> does not have, and a
  path with an unclassified cell at the head of the launch and of the capture path.
\<close>

theorem advice_is_not_fatal_witness:
  "load_lines ex_compile ex_decimal 1 default_cfg [''pc: A a.*'', ''dpc: Z'']
     = Inr (default_cfg\<lparr>dpc := Some ''Z'', pc := [(''A'', ''a.*'')]\<rparr>) \<and>
   ''Z'' \<notin> fst ` set [(''A'', ''a.*'')] \<and>
   load_times_cfg ex_compile ex_decimal (Some [''pc: A a.*'', ''dpc: Z''])
     = Inr (default_cfg\<lparr>dpc := None, pc := [(''A'', ''a.*'')]\<rparr>, [InfoNoDefaultGroup]) \<and>
   ''fast'' \<notin> fst ` set (bds (default_cfg :: (string, nat) cons_cfg)) \<and>
   select_bar_dtype (default_cfg :: (string, nat) cons_cfg) (Some ''fast'') (Some [''ct''])
     = ({''ct'', ''i''}, [WarnBarsNotFound]) \<and>
   ''c'' \<in> {''d'', ''c''} \<and>
   dc_bars {''d'', ''c''}
     \<lparr>lpath = [\<lparr>name = ''ck'', cell = ''BUF'', drv = - 1, lnum = 7\<rparr>,
               \<lparr>name = ''ff/Q'', cell = ''DFF'', drv = 2, lnum = 8\<rparr>],
      cpath = [\<lparr>name = ''ck'', cell = ''INV'', drv = - 1, lnum = 20\<rparr>,
               \<lparr>name = ''ff/CK'', cell = ''DFF'', drv = 4, lnum = 21\<rparr>],
      spin = Some 0, llat = 0, clat = 0, crpr = 0\<rparr>
     = ([(''Capture Cell Type'', [- 1, 4]), (''Path Cell Type'', [- 1, 2])],
        [WarnUnknownDrivingCell ''BUF'' 7, WarnUnknownDrivingCell ''INV'' 20])"
proof -
  let ?cons = "(default_cfg :: (string, nat) cons_cfg)\<lparr>dpc := Some ''Z'', pc := [(''A'', ''a.*'')]\<rparr>"
  let ?path = "\<lparr>lpath = [\<lparr>name = ''ck'', cell = ''BUF'', drv = - 1, lnum = 7\<rparr>,
               \<lparr>name = ''ff/Q'', cell = ''DFF'', drv = 2, lnum = 8\<rparr>],
      cpath = [\<lparr>name = ''ck'', cell = ''INV'', drv = - 1, lnum = 20\<rparr>,
               \<lparr>name = ''ff/CK'', cell = ''DFF'', drv = 4, lnum = 21\<rparr>],
      spin = Some 0, llat = 0, clat = 0, crpr = 0\<rparr>"
  have h1: "load_lines ex_compile ex_decimal 1 default_cfg [''pc: A a.*'', ''dpc: Z''] = Inr ?cons"
    by (simp add: content_def strip_def is_space_def process_line_def handle_key_def attr_def
        handle_pc_def split_ws_def ex_compile_def default_cfg_def)
  have h2: "dpc ?cons = Some ''Z''" by simp
  have h3: "''Z'' \<notin> fst ` set (pc ?cons)" by simp
  have h4: "''fast'' \<notin> fst ` set (bds (default_cfg :: (string, nat) cons_cfg))"
    by (simp add: default_cfg_def)
  have h5: "''c'' \<in> {''d'', ''c''}" by simp
  note T = advice_is_not_fatal [where re_compile = ex_compile and Decimal = ex_decimal
      and fp = "[''pc: A a.*'', ''dpc: Z'']" and cons = ?cons and t = "''Z''"
      and tag = "''fast''" and cons' = "default_cfg :: (string, nat) cons_cfg"
      and bar_dtype = "Some [''ct'']" and bar_ptype = "{''d'', ''c''}" and path = ?path]
  from T [THEN conjunct1, THEN mp, OF conjI [OF h1 conjI [OF h2 h3]]]
  have c1: "load_times_cfg ex_compile ex_decimal (Some [''pc: A a.*'', ''dpc: Z''])
     = Inr (default_cfg\<lparr>dpc := None, pc := [(''A'', ''a.*'')]\<rparr>, [InfoNoDefaultGroup])"
    by simp
  from T [THEN conjunct2, THEN conjunct1, THEN mp, OF h4]
  have c2: "select_bar_dtype (default_cfg :: (string, nat) cons_cfg) (Some ''fast'') (Some [''ct''])
     = ({''ct'', ''i''}, [WarnBarsNotFound])"
    by (simp add: select_bar_dtype_def insert_commute)
  have c3: "dc_bars {''d'', ''c''} ?path
     = ([(''Capture Cell Type'', [- 1, 4]), (''Path Cell Type'', [- 1, 2])],
        [WarnUnknownDrivingCell ''BUF'' 7, WarnUnknownDrivingCell ''INV'' 20])"
    by (simp add: dc_bars_def enumerate_eq_zip)
  from h1 h3 c1 h4 c2 h5 c3 show ?thesis by (intro conjI) simp_all
qed

section \<open>The clock skew\<close>

text \<open>
  The rounding gives the values that Python shows with \<open>float.hex\<close>: \<open>1.2\<close> is
  \<open>0x1.3333333333333p+0\<close>, \<open>0.3\<close> is \<open>0x1.3333333333333p-2\<close>, \<open>2.0 - 1.2\<close> is
  \<open>0x1.999999999999ap-1\<close>, and \<open>0.1 + 0.2\<close> is \<open>0x1.3333333333334p-2\<close>.
\<close>

lemma binary64_values:
  "fl (12 / 10) = 5404319552844595 / 2 ^ 52"
  "fl (3 / 10) = 5404319552844595 / 2 ^ 54"
  "fsub (fl 2) (fl (12 / 10)) = 7205759403792794 / 2 ^ 53"
  "fl (fl (1 / 10) + fl (2 / 10)) = 5404319552844596 / 2 ^ 54"
  by code_simp+

text \<open>
  Claim C3. The skew of a path is its launch clock latency minus its capture clock
  latency minus its CRPR, subtracted from left to right. For \<open>llat = 2.0\<close>,
  \<open>clat = 1.2\<close> and \<open>crpr = 0.3\<close> it is exactly \<open>0.5\<close>, with exact decimal arithmetic
  and with binary64 arithmetic alike: the two roundings of the subtractions end on
  the value \<open>0.5\<close> itself.
\<close>

theorem skew_is_llat_minus_clat_minus_crpr:
  "skew sub path = sub (sub (llat path) (clat path)) (crpr path) \<and>
   skew (-) path = llat path - clat path - crpr path \<and>
   skew (-) \<lparr>lpath = [], cpath = [], spin = None, llat = 2, clat = 12 / 10, crpr = 3 / 10\<rparr>
     = 1 / 2 \<and>
   skew fsub \<lparr>lpath = [], cpath = [], spin = None,
              llat = fl 2, clat = fl (12 / 10), crpr = fl (3 / 10)\<rparr> = fl (1 / 2) \<and>
   fl (1 / 2) = 1 / 2"
proof -
  have a: "skew sub path = sub (sub (llat path) (clat path)) (crpr path)"
    by (simp add: skew_def)
  have b: "skew (-) path = llat path - clat path - crpr path"
    by (simp add: skew_def)
  have c: "skew (-) \<lparr>lpath = [], cpath = [], spin = None, llat = 2, clat = 12 / 10,
                      crpr = 3 / 10\<rparr> = 1 / 2"
    by (simp add: skew_def)
  have d: "skew fsub \<lparr>lpath = [], cpath = [], spin = None,
              llat = fl 2, clat = fl (12 / 10), crpr = fl (3 / 10)\<rparr> = fl (1 / 2)"
    by code_simp
  have e: "fl (1 / 2) = 1 / 2" by code_simp
  from a b c d e show ?thesis by (intro conjI)
qed

end
